theory Spec2Isabelle
  imports Main
begin

section \<open>JavaScript values\<close>

text \<open>
  The values that occur as tag names and attribute values. Numbers are the integer-valued
  ones (floating point and \<open>NaN\<close> are outside the model). A function value carries its
  identity and its source text: \<open>===\<close> compares the whole value (reference identity),
  \<open>toString()\<close> yields the source text, so two closures created by two evaluations of the
  same arrow expression differ under \<open>===\<close> and agree under \<open>toString()\<close>.
\<close>

datatype jsval =
    JUndefined
  | JNull
  | JStr string
  | JNum int
  | JBool bool
  | JFun nat string

datatype error = TypeError | InvalidCharacterError | HierarchyRequestError

text \<open>\<open>null == v\<close>\<close>

fun nullish_val :: "jsval \<Rightarrow> bool" where
  "nullish_val JUndefined = True"
| "nullish_val JNull = True"
| "nullish_val _ = False"

text \<open>\<open>typeof v === 'function'\<close>\<close>

fun is_function :: "jsval \<Rightarrow> bool" where
  "is_function (JFun _ _) = True"
| "is_function _ = False"

text \<open>JavaScript truthiness, as used by \<open>if (newNode.tagName)\<close>.\<close>

fun truthy :: "jsval \<Rightarrow> bool" where
  "truthy JUndefined = False"
| "truthy JNull = False"
| "truthy (JStr s) = (s \<noteq> [])"
| "truthy (JNum n) = (n \<noteq> 0)"
| "truthy (JBool b) = b"
| "truthy (JFun _ _) = True"

text \<open>Decimal notation of an integer, as \<open>Number.prototype.toString\<close> prints it.\<close>

definition digit_char :: "nat \<Rightarrow> char" where
  "digit_char d = ''0123456789'' ! (d mod 10)"

fun digits_of :: "nat \<Rightarrow> string" where
  "digits_of n = (if n < 10 then [digit_char n] else digits_of (n div 10) @ [digit_char (n mod 10)])"

declare digits_of.simps [simp del]

definition string_of_int :: "int \<Rightarrow> string" where
  "string_of_int i = (if i < 0 then CHR ''-'' # digits_of (nat (- i)) else digits_of (nat i))"

text \<open>The string conversion \<open>String(v)\<close>; for a value that is not null or undefined it is
  what \<open>v.toString()\<close> returns.\<close>

fun js_String :: "jsval \<Rightarrow> string" where
  "js_String JUndefined = ''undefined''"
| "js_String JNull = ''null''"
| "js_String (JStr s) = s"
| "js_String (JNum n) = string_of_int n"
| "js_String (JBool b) = (if b then ''true'' else ''false'')"
| "js_String (JFun _ src) = src"

section \<open>Node Model\<close>

text \<open>
  A virtual node is \<open>undefined\<close>, \<open>null\<close>, a string, a number, an array (which the
  node constructor leaves in place below the first nesting level) or an object. The object
  has the properties \<open>tagName\<close>, \<open>attributes\<close> and \<open>children\<close> of the \<open>VNode\<close> typedef
  and a property \<open>type\<close>, which \<open>changed\<close> reads; a property that is absent reads as
  \<open>undefined\<close> (\<open>JUndefined\<close>, \<open>None\<close> for the attribute mapping). An attribute mapping
  is the list of its own enumerable properties in the order of \<open>Object.keys\<close>.
\<close>

type_synonym attributes = "(string \<times> jsval) list"

datatype vnode =
    VUndefined
  | VNull
  | VStr string
  | VNum int
  | VArr "vnode list"
  | VNode jsval jsval "attributes option" "vnode list"

datatype js_type = T_undefined | T_object | T_string | T_number

fun typeof :: "vnode \<Rightarrow> js_type" where
  "typeof VUndefined = T_undefined"
| "typeof VNull = T_object"
| "typeof (VStr _) = T_string"
| "typeof (VNum _) = T_number"
| "typeof (VArr _) = T_object"
| "typeof (VNode _ _ _ _) = T_object"

text \<open>\<open>null == node\<close>\<close>

fun nullish :: "vnode \<Rightarrow> bool" where
  "nullish VUndefined = True"
| "nullish VNull = True"
| "nullish _ = False"

text \<open>Property reads \<open>node.type\<close>, \<open>node.tagName\<close>, \<open>node.attributes\<close>, \<open>node.children\<close>:
  a \<open>TypeError\<close> on \<open>null\<close> and \<open>undefined\<close>, \<open>undefined\<close> on strings, numbers and arrays.\<close>

fun prop_type :: "vnode \<Rightarrow> error + jsval" where
  "prop_type VUndefined = Inl TypeError"
| "prop_type VNull = Inl TypeError"
| "prop_type (VNode ty _ _ _) = Inr ty"
| "prop_type _ = Inr JUndefined"

fun prop_tagName :: "vnode \<Rightarrow> error + jsval" where
  "prop_tagName VUndefined = Inl TypeError"
| "prop_tagName VNull = Inl TypeError"
| "prop_tagName (VNode _ tg _ _) = Inr tg"
| "prop_tagName _ = Inr JUndefined"

fun prop_attributes :: "vnode \<Rightarrow> error + attributes option" where
  "prop_attributes VUndefined = Inl TypeError"
| "prop_attributes VNull = Inl TypeError"
| "prop_attributes (VNode _ _ at _) = Inr at"
| "prop_attributes _ = Inr None"

fun prop_children :: "vnode \<Rightarrow> error + vnode list option" where
  "prop_children VUndefined = Inl TypeError"
| "prop_children VNull = Inl TypeError"
| "prop_children (VNode _ _ _ cs) = Inr (Some cs)"
| "prop_children _ = Inr None"

text \<open>\<open>attributes[a]\<close>: the value of an own property, \<open>undefined\<close> when there is none.\<close>

definition attr_get :: "attributes \<Rightarrow> string \<Rightarrow> jsval" where
  "attr_get at a = (case map_of at a of None \<Rightarrow> JUndefined | Some v \<Rightarrow> v)"

text \<open>\<open>xs[i]\<close> on an array: \<open>undefined\<close> out of range.\<close>

definition array_get :: "vnode list \<Rightarrow> nat \<Rightarrow> vnode" where
  "array_get xs i = (if i < length xs then xs ! i else VUndefined)"

subsection \<open>The node constructor\<close>

text \<open>
  \<^verbatim>\<open>const vNode = (tagName, attributes = {}, ...nodes) => ({
    tagName,
    attributes: null == attributes ? {} : attributes,
    children: null == nodes ? [] : [].concat(...nodes),
  });\<close>
  The second argument is absent (\<open>undefined\<close>), \<open>null\<close> or an attribute mapping. The rest
  parameter \<open>nodes\<close> is always an array, so \<open>null == nodes\<close> is false on every call.
  \<open>[].concat(...nodes)\<close> appends the elements of each argument that is an array and every
  other argument itself.
\<close>

datatype attributes_arg = Attrs_undefined | Attrs_null | Attrs attributes

fun concat_arg :: "vnode \<Rightarrow> vnode list" where
  "concat_arg (VArr xs) = xs"
| "concat_arg v = [v]"

definition vNode :: "jsval \<Rightarrow> attributes_arg \<Rightarrow> vnode list \<Rightarrow> vnode" where
  "vNode tagName attributes nodes =
     VNode JUndefined tagName
       (Some (case (case attributes of Attrs_undefined \<Rightarrow> Attrs [] | a \<Rightarrow> a) of
                Attrs a \<Rightarrow> a | _ \<Rightarrow> []))
       (concat (map concat_arg nodes))"

definition h :: "jsval \<Rightarrow> attributes_arg \<Rightarrow> vnode list \<Rightarrow> vnode" where
  "h = vNode"

subsection \<open>changed\<close>

text \<open>
  \<^verbatim>\<open>const changed = (node1, node2) => {
    const nodeChanged =
      typeof node1 !== typeof node2 ||
      ((typeof node1 === 'string' || typeof node1 === 'number') && node1 !== node2) ||
      node1.type !== node2.type;
    const attributesChanged =
      !!node1.attributes &&
      !!node2.attributes &&
      (Object.keys(node1.attributes).length !== Object.keys(node2.attributes).length ||
        Object.keys(node1.attributes).some(
          a =>
            node1.attributes[a] !== node2.attributes[a] &&
            (null == node1.attributes[a] ? '' : node1.attributes[a]).toString() !==
            (null == node2.attributes[a] ? '' : node2.attributes[a]).toString()
        ));
    return nodeChanged || attributesChanged;
  };\<close>
\<close>

definition normalized :: "jsval \<Rightarrow> string" where
  "normalized v = js_String (if nullish_val v then JStr [] else v)"

definition attribute_differs :: "attributes \<Rightarrow> attributes \<Rightarrow> string \<Rightarrow> bool" where
  "attribute_differs at1 at2 a =
     (attr_get at1 a \<noteq> attr_get at2 a \<and> normalized (attr_get at1 a) \<noteq> normalized (attr_get at2 a))"

definition nodeChanged :: "vnode \<Rightarrow> vnode \<Rightarrow> error + bool" where
  "nodeChanged node1 node2 =
     (if typeof node1 \<noteq> typeof node2 then Inr True
      else if (typeof node1 = T_string \<or> typeof node1 = T_number) \<and> node1 \<noteq> node2 then Inr True
      else (case prop_type node1 of Inl e \<Rightarrow> Inl e | Inr t1 \<Rightarrow>
             (case prop_type node2 of Inl e \<Rightarrow> Inl e | Inr t2 \<Rightarrow> Inr (t1 \<noteq> t2))))"

definition attributesChanged :: "vnode \<Rightarrow> vnode \<Rightarrow> error + bool" where
  "attributesChanged node1 node2 =
     (case prop_attributes node1 of Inl e \<Rightarrow> Inl e
      | Inr None \<Rightarrow> Inr False
      | Inr (Some at1) \<Rightarrow>
          (case prop_attributes node2 of Inl e \<Rightarrow> Inl e
           | Inr None \<Rightarrow> Inr False
           | Inr (Some at2) \<Rightarrow>
               Inr (length (map fst at1) \<noteq> length (map fst at2) \<or>
                    list_ex (attribute_differs at1 at2) (map fst at1))))"

definition changed :: "vnode \<Rightarrow> vnode \<Rightarrow> error + bool" where
  "changed node1 node2 =
     (case nodeChanged node1 node2 of Inl e \<Rightarrow> Inl e | Inr nc \<Rightarrow>
        (case attributesChanged node1 node2 of Inl e \<Rightarrow> Inl e | Inr ac \<Rightarrow> Inr (nc \<or> ac)))"

section \<open>Render target\<close>

text \<open>
  The live tree. An element records its tag, the attributes set on it, the listeners
  added to it and its child nodes, each in order. Which names \<open>document.createElement\<close> and
  \<open>setAttribute\<close> accept is the platform's business and is a parameter.
\<close>

datatype dom =
    Text string
  | Element string "(string \<times> string) list" "(string \<times> jsval) list" "dom list"

record platform =
  valid_tag :: "string \<Rightarrow> bool"
  valid_attribute :: "string \<Rightarrow> bool"

definition createTextNode :: "string \<Rightarrow> dom" where
  "createTextNode s = Text s"

definition createElement :: "platform \<Rightarrow> string \<Rightarrow> error + dom" where
  "createElement P name =
     (if valid_tag P name then Inr (Element name [] [] []) else Inl InvalidCharacterError)"

fun set_attr :: "string \<Rightarrow> string \<Rightarrow> (string \<times> string) list \<Rightarrow> (string \<times> string) list" where
  "set_attr k v [] = [(k, v)]"
| "set_attr k v ((k', v') # as) = (if k = k' then (k, v) # as else (k', v') # set_attr k v as)"

fun setAttribute :: "platform \<Rightarrow> string \<Rightarrow> string \<Rightarrow> dom \<Rightarrow> error + dom" where
  "setAttribute P k v (Element t as ls cs) =
     (if valid_attribute P k then Inr (Element t (set_attr k v as) ls cs)
      else Inl InvalidCharacterError)"
| "setAttribute P k v (Text s) = Inl TypeError"

fun addEventListener :: "string \<Rightarrow> jsval \<Rightarrow> dom \<Rightarrow> dom" where
  "addEventListener k f (Element t as ls cs) =
     Element t as (if (k, f) \<in> set ls then ls else ls @ [(k, f)]) cs"
| "addEventListener k f (Text s) = Text s"

fun childNodes :: "dom \<Rightarrow> dom list" where
  "childNodes (Element t as ls cs) = cs"
| "childNodes (Text s) = []"

text \<open>\<open>$parent.childNodes[index]\<close>, \<open>None\<close> for \<open>undefined\<close>.\<close>

definition childAt :: "dom \<Rightarrow> nat \<Rightarrow> dom option" where
  "childAt p i = (if i < length (childNodes p) then Some (childNodes p ! i) else None)"

fun appendChild :: "dom \<Rightarrow> dom \<Rightarrow> error + dom" where
  "appendChild (Element t as ls cs) c = Inr (Element t as ls (cs @ [c]))"
| "appendChild (Text s) c = Inl HierarchyRequestError"

text \<open>\<open>$parent.removeChild($parent.childNodes[index])\<close> and
  \<open>$parent.replaceChild(c, $parent.childNodes[index])\<close>: a \<open>TypeError\<close> when there is no
  child at the index.\<close>

fun removeChildAt :: "dom \<Rightarrow> nat \<Rightarrow> error + dom" where
  "removeChildAt (Element t as ls cs) i =
     (if i < length cs then Inr (Element t as ls (take i cs @ drop (Suc i) cs)) else Inl TypeError)"
| "removeChildAt (Text s) i = Inl TypeError"

fun replaceChildAt :: "dom \<Rightarrow> dom \<Rightarrow> nat \<Rightarrow> error + dom" where
  "replaceChildAt (Element t as ls cs) c i =
     (if i < length cs then Inr (Element t as ls (cs[i := c])) else Inl TypeError)"
| "replaceChildAt (Text s) c i = Inl TypeError"

section \<open>Materializer\<close>

text \<open>
  \<^verbatim>\<open>const createDomElement = (tagName, attributes = {}, innerHTML = '') => {
    const $element = document.createElement(tagName);
    $element.innerHTML = innerHTML;
    Object.keys(attributes)
      .filter(key => null != attributes[key])
      .forEach(key => {
        if (typeof attributes[key] === 'function') {
          $element.addEventListener(key, attributes[key]);
        } else {
          $element.setAttribute(key, attributes[key]);
        }
      });
    return $element;
  };\<close>
  \<open>render\<close> calls it without \<open>innerHTML\<close>, so the new element has no children.
\<close>

fun forEach :: "('a \<Rightarrow> 's \<Rightarrow> error + 's) \<Rightarrow> 'a list \<Rightarrow> 's \<Rightarrow> error + 's" where
  "forEach f [] s = Inr s"
| "forEach f (x # xs) s = (case f x s of Inl e \<Rightarrow> Inl e | Inr s' \<Rightarrow> forEach f xs s')"

definition apply_attribute :: "platform \<Rightarrow> attributes \<Rightarrow> string \<Rightarrow> dom \<Rightarrow> error + dom" where
  "apply_attribute P at key el =
     (if is_function (attr_get at key) then Inr (addEventListener key (attr_get at key) el)
      else setAttribute P key (js_String (attr_get at key)) el)"

definition createDomElement :: "platform \<Rightarrow> jsval \<Rightarrow> attributes option \<Rightarrow> error + dom" where
  "createDomElement P tagName attributes =
     (let at = (case attributes of None \<Rightarrow> [] | Some a \<Rightarrow> a) in
      case createElement P (js_String tagName) of Inl e \<Rightarrow> Inl e
      | Inr el \<Rightarrow>
          forEach (apply_attribute P at)
            (filter (\<lambda>key. \<not> nullish_val (attr_get at key)) (map fst at)) el)"

text \<open>
  \<^verbatim>\<open>const render = node => {
    if (null == node) {
      return document.createTextNode('');
    }
    if (typeof node === 'string' || typeof node === 'number') {
      return document.createTextNode(node);
    }
    const $element = createDomElement(node.tagName, node.attributes);
    node.children.forEach(c => $element.appendChild(render(c)));
    return $element;
  };\<close>
  An array has no \<open>tagName\<close>, \<open>attributes\<close> or \<open>children\<close>: the element is created for
  the tag name \<open>undefined\<close> and \<open>node.children.forEach\<close> raises a \<open>TypeError\<close>.
\<close>

fun render :: "platform \<Rightarrow> vnode \<Rightarrow> error + dom"
  and render_children :: "platform \<Rightarrow> vnode list \<Rightarrow> dom \<Rightarrow> error + dom" where
  "render P VUndefined = Inr (createTextNode [])"
| "render P VNull = Inr (createTextNode [])"
| "render P (VStr s) = Inr (createTextNode s)"
| "render P (VNum n) = Inr (createTextNode (string_of_int n))"
| "render P (VArr xs) =
     (case createDomElement P JUndefined None of Inl e \<Rightarrow> Inl e | Inr el \<Rightarrow> Inl TypeError)"
| "render P (VNode ty tagName attributes children) =
     (case createDomElement P tagName attributes of Inl e \<Rightarrow> Inl e
      | Inr el \<Rightarrow> render_children P children el)"
| "render_children P [] el = Inr el"
| "render_children P (c # cs) el =
     (case render P c of Inl e \<Rightarrow> Inl e
      | Inr d \<Rightarrow> (case appendChild el d of Inl e \<Rightarrow> Inl e | Inr el' \<Rightarrow> render_children P cs el'))"

section \<open>Tree Differ\<close>

text \<open>
  \<^verbatim>\<open>const diff = ($parent, newNode, oldNode, index = 0) => {
    if (null == oldNode) {
      $parent.appendChild(render(newNode));
      return;
    }
    if (null == newNode) {
      $parent.removeChild($parent.childNodes[index]);
      return;
    }
    if (changed(oldNode, newNode)) {
      $parent.replaceChild(render(newNode), $parent.childNodes[index]);
      return;
    }
    if (newNode.tagName) {
      newNode.children.forEach((newNode, i) => {
        diff($parent.childNodes[index], newNode, oldNode.children[i], i);
      });
    }
  };\<close>
  (\<open>src/puerro/util/dom.js\<close> has the same body with the parameters \<open>oldNode\<close> and
  \<open>newNode\<close> in the other order, at the calls too.) The function mutates \<open>$parent\<close> in
  place; the model returns the parent after the call. The parent of a recursive call is
  \<open>$parent.childNodes[index]\<close>, which is \<open>undefined\<close> (\<open>None\<close>) when there is no such
  child: then every access to a property of \<open>$parent\<close> raises a \<open>TypeError\<close>. The child
  that a recursive call has patched stays where it was in its parent (\<open>put_child\<close>).
\<close>

definition put_child :: "dom \<Rightarrow> nat \<Rightarrow> dom option \<Rightarrow> dom" where
  "put_child p i c =
     (case c of None \<Rightarrow> p
      | Some c' \<Rightarrow> (case p of Element t as ls cs \<Rightarrow> Element t as ls (cs[i := c']) | Text s \<Rightarrow> Text s))"

fun diff :: "platform \<Rightarrow> dom option \<Rightarrow> vnode \<Rightarrow> vnode \<Rightarrow> nat \<Rightarrow> error + dom option"
  and diff_children ::
    "platform \<Rightarrow> dom option \<Rightarrow> nat \<Rightarrow> vnode \<Rightarrow> vnode list \<Rightarrow> nat \<Rightarrow> error + dom option" where
  "diff P parent newNode oldNode index =
     (if nullish oldNode then
        (case parent of None \<Rightarrow> Inl TypeError
         | Some p \<Rightarrow>
             (case render P newNode of Inl e \<Rightarrow> Inl e
              | Inr d \<Rightarrow> (case appendChild p d of Inl e \<Rightarrow> Inl e | Inr p' \<Rightarrow> Inr (Some p'))))
      else if nullish newNode then
        (case parent of None \<Rightarrow> Inl TypeError
         | Some p \<Rightarrow> (case removeChildAt p index of Inl e \<Rightarrow> Inl e | Inr p' \<Rightarrow> Inr (Some p')))
      else
        (case changed oldNode newNode of Inl e \<Rightarrow> Inl e
         | Inr True \<Rightarrow>
             (case parent of None \<Rightarrow> Inl TypeError
              | Some p \<Rightarrow>
                  (case render P newNode of Inl e \<Rightarrow> Inl e
                   | Inr d \<Rightarrow>
                       (case replaceChildAt p d index of Inl e \<Rightarrow> Inl e
                        | Inr p' \<Rightarrow> Inr (Some p'))))
         | Inr False \<Rightarrow>
             (case newNode of
                VNode ty tagName attributes children \<Rightarrow>
                  (if truthy tagName then diff_children P parent index oldNode children 0
                   else Inr parent)
              | _ \<Rightarrow> Inr parent)))"
| "diff_children P parent index oldNode [] i = Inr parent"
| "diff_children P parent index oldNode (newNode # rest) i =
     (case parent of None \<Rightarrow> Inl TypeError
      | Some p \<Rightarrow>
          (case prop_children oldNode of Inl e \<Rightarrow> Inl e
           | Inr None \<Rightarrow> Inl TypeError
           | Inr (Some olds) \<Rightarrow>
               (case diff P (childAt p index) newNode (array_get olds i) i of Inl e \<Rightarrow> Inl e
                | Inr c' \<Rightarrow>
                    diff_children P (Some (put_child p index c')) index oldNode rest (Suc i))))"

declare diff.simps [simp del]

text \<open>A virtual tree in which no node is \<open>null\<close> or \<open>undefined\<close>.\<close>

fun no_nullish :: "vnode \<Rightarrow> bool" where
  "no_nullish VUndefined = False"
| "no_nullish VNull = False"
| "no_nullish (VStr s) = True"
| "no_nullish (VNum n) = True"
| "no_nullish (VArr xs) = list_all no_nullish xs"
| "no_nullish (VNode ty tg at cs) = list_all no_nullish cs"


text \<open>A platform that accepts every non-empty name, for the concrete runs below.\<close>

definition permissive :: platform where
  "permissive = \<lparr>valid_tag = (\<lambda>s. s \<noteq> []), valid_attribute = (\<lambda>s. s \<noteq> [])\<rparr>"

section \<open>Properties of the Tree Differ\<close>

lemmas changed_defs = changed_def nodeChanged_def attributesChanged_def attribute_differs_def
  normalized_def attr_get_def

lemmas dom_defs = childAt_def array_get_def put_child_def createDomElement_def createElement_def
  createTextNode_def apply_attribute_def permissive_def Let_def

text \<open>
  C1. Two nodes built by the node constructor whose tags differ: \<open>changed\<close> is expected to
  report true, and patching to replace the live node. The code compares the property
  \<open>type\<close>, which the node constructor never sets, so for \<open>h('p', {}, '1')\<close> and
  \<open>h('span', {}, '1')\<close> it returns false, and \<open>diff\<close> recurses into the children and
  leaves the live \<open>p\<close> element in place.
\<close>

theorem changed_tag_mismatch:
  "changed (h (JStr ''p'') (Attrs []) [VStr ''1'']) (h (JStr ''span'') (Attrs []) [VStr ''1''])
     = Inr False
   \<and> diff permissive (Some (Element ''div'' [] [] [Element ''p'' [] [] [Text ''1'']]))
         (h (JStr ''span'') (Attrs []) [VStr ''1'']) (h (JStr ''p'') (Attrs []) [VStr ''1'']) 0
     = Inr (Some (Element ''div'' [] [] [Element ''p'' [] [] [Text ''1'']]))"
  by (simp add: h_def vNode_def changed_defs dom_defs diff.simps)

section \<open>Properties of the node constructor and of \<open>changed\<close>\<close>

text \<open>
  C6, as the claim states it, fails: a \<open>null\<close> or \<open>undefined\<close> child does not collapse
  to an empty sequence. \<open>h('div', {}, null)\<close> has the one child \<open>null\<close>.
\<close>

theorem vNode_keeps_null_child:
  "prop_children (vNode (JStr ''div'') (Attrs []) [VNull]) = Inr (Some [VNull])
   \<and> prop_children (vNode (JStr ''div'') (Attrs []) [VNull]) \<noteq> Inr (Some [])
   \<and> prop_children (vNode (JStr ''div'') (Attrs []) [VUndefined]) \<noteq> Inr (Some [])"
  by (simp add: vNode_def)

text \<open>
  C6, amended. The node constructor returns an object with the given tag name and no
  \<open>type\<close>; its attribute mapping is \<open>{}\<close> when the argument is \<open>undefined\<close> or \<open>null\<close> and
  the given mapping otherwise; its children are the arguments flattened exactly one level:
  no argument gives no child, an array argument gives its elements as they are (a nested
  array stays an array), any other argument, \<open>null\<close> and \<open>undefined\<close> included, gives
  itself, and the children of a concatenation of argument lists are the concatenation of
  the children.
\<close>

theorem vNode_result:
  "prop_tagName (vNode t a ns) = Inr t
   \<and> prop_type (vNode t a ns) = Inr JUndefined
   \<and> prop_attributes (vNode t Attrs_undefined ns) = Inr (Some [])
   \<and> prop_attributes (vNode t Attrs_null ns) = Inr (Some [])
   \<and> prop_attributes (vNode t (Attrs at) ns) = Inr (Some at)
   \<and> prop_children (vNode t a []) = Inr (Some [])
   \<and> prop_children (vNode t a [VArr xs]) = Inr (Some xs)
   \<and> prop_children (vNode t a [VNull]) = Inr (Some [VNull])
   \<and> prop_children (vNode t a [VUndefined]) = Inr (Some [VUndefined])
   \<and> prop_children (vNode t a [VStr s]) = Inr (Some [VStr s])
   \<and> prop_children (vNode t a [VNum n]) = Inr (Some [VNum n])
   \<and> prop_children (vNode t a [VNode ty tg at' cs]) = Inr (Some [VNode ty tg at' cs])
   \<and> (\<exists>cm cn. prop_children (vNode t a ms) = Inr (Some cm)
          \<and> prop_children (vNode t a ns) = Inr (Some cn)
          \<and> prop_children (vNode t a (ms @ ns)) = Inr (Some (cm @ cn)))"
  by (simp add: vNode_def)





section \<open>Properties of the Materializer\<close>










section \<open>Properties of \<open>diff\<close>\<close>

subsection \<open>Patching a tree to itself\<close>


lemma no_nullish_not_nullish: "no_nullish T \<Longrightarrow> \<not> nullish T"
  by (cases T) auto










lemma appendChild_childNodes:
  "appendChild el d = Inr el1 \<Longrightarrow> childNodes el1 = childNodes el @ [d]"
  by (cases el) auto









subsection \<open>Surplus live children\<close>

lemma put_child_frame:
  "length (childNodes (put_child p i c)) = length (childNodes p)
   \<and> (j \<noteq> i \<longrightarrow> childNodes (put_child p i c) ! j = childNodes p ! j)"
  by (cases p; cases c) (auto simp add: put_child_def)

lemma childAt_put_child:
  "childAt p i = Some c \<Longrightarrow> childAt (put_child p i (Some c1)) i = Some c1"
  by (cases p) (auto simp add: put_child_def childAt_def split: if_splits)

lemma diff_children_frame:
  "diff_children P (Some p) index old news i = Inr r \<Longrightarrow>
   \<exists>p'. r = Some p' \<and> length (childNodes p') = length (childNodes p)
        \<and> (\<forall>j. j \<noteq> index \<longrightarrow> childNodes p' ! j = childNodes p ! j)"
proof (induction news arbitrary: p i)
  case Nil
  then show ?case by (auto simp add: diff.simps)
next
  case (Cons n rest)
  then obtain c' where
    rest: "diff_children P (Some (put_child p index c')) index old rest (Suc i) = Inr r"
    by (auto simp add: diff.simps split: sum.splits option.splits)
  from Cons.IH[OF rest] obtain p' where p': "r = Some p'"
    "length (childNodes p') = length (childNodes (put_child p index c'))"
    "\<forall>j. j \<noteq> index \<longrightarrow> childNodes p' ! j = childNodes (put_child p index c') ! j"
    by blast
  show ?case using p' put_child_frame[of p index c'] by simp
qed

lemma diff_step_frame:
  assumes res: "diff P (Some c) n ol i = Inr r"
    and norem: "nullish n \<longrightarrow> nullish ol"
  shows "\<exists>c'. r = Some c' \<and> length (childNodes c) \<le> length (childNodes c')
           \<and> (\<forall>j < length (childNodes c). j \<noteq> i \<longrightarrow> childNodes c' ! j = childNodes c ! j)"
proof (cases "nullish ol")
  case True
  then obtain d c' where "appendChild c d = Inr c'" and r: "r = Some c'"
    using res by (auto simp add: diff.simps(1) split: sum.splits)
  then have "childNodes c' = childNodes c @ [d]" by (simp add: appendChild_childNodes)
  then show ?thesis using r by (simp add: nth_append)
next
  case False
  then have nn: "\<not> nullish n" using norem by simp
  from res False nn obtain b where b: "changed ol n = Inr b"
    by (cases "changed ol n") (auto simp add: diff.simps(1))
  show ?thesis
  proof (cases b)
    case True
    then obtain d c' where rc: "replaceChildAt c d i = Inr c'" and r: "r = Some c'"
      using res False nn b by (auto simp add: diff.simps(1) split: sum.splits)
    then have "childNodes c' = (childNodes c)[i := d]"
      by (cases c) (auto split: if_splits)
    then show ?thesis using r by simp
  next
    case nb: False
    show ?thesis
    proof (cases "\<exists>ty tg at cs. n = VNode ty tg at cs \<and> truthy tg")
      case True
      then obtain ty tg at cs where n: "n = VNode ty tg at cs" "truthy tg" by blast
      then have "diff_children P (Some c) i ol cs 0 = Inr r"
        using res False b nb by (simp add: diff.simps(1))
      from diff_children_frame[OF this] show ?thesis by auto
    next
      case no: False
      then have "r = Some c"
        using res False nn b nb by (cases n) (auto simp add: diff.simps(1))
      then show ?thesis by simp
    qed
  qed
qed

lemma diff_children_surplus:
  assumes olds: "prop_children old = Inr (Some olds)"
    and res: "diff_children P (Some p) index old news i = Inr r"
    and live: "childAt p index = Some c"
    and norem: "\<forall>k < length news. nullish (news ! k) \<longrightarrow> nullish (array_get olds (i + k))"
  shows "\<exists>p' c'. r = Some p' \<and> childAt p' index = Some c'
           \<and> length (childNodes c) \<le> length (childNodes c')
           \<and> (\<forall>j < length (childNodes c). i + length news \<le> j \<longrightarrow>
                 childNodes c' ! j = childNodes c ! j)"
  using res live norem
proof (induction news arbitrary: p c i)
  case Nil
  then show ?case by (auto simp add: diff.simps)
next
  case (Cons n rest)
  from Cons.prems(1) Cons.prems(2) olds obtain c'' where
    inner: "diff P (Some c) n (array_get olds i) i = Inr c''"
    and rest: "diff_children P (Some (put_child p index c'')) index old rest (Suc i) = Inr r"
    by (auto simp add: diff.simps split: sum.splits)
  have nr0: "nullish n \<longrightarrow> nullish (array_get olds i)"
    using Cons.prems(3) by force
  from diff_step_frame[OF inner nr0] obtain c1 where c1: "c'' = Some c1"
    "length (childNodes c) \<le> length (childNodes c1)"
    "\<forall>j < length (childNodes c). j \<noteq> i \<longrightarrow> childNodes c1 ! j = childNodes c ! j"
    by blast
  have live1: "childAt (put_child p index (Some c1)) index = Some c1"
    using Cons.prems(2) by (rule childAt_put_child)
  have nr: "\<forall>k < length rest. nullish (rest ! k) \<longrightarrow> nullish (array_get olds (Suc i + k))"
  proof (intro allI impI)
    fix k assume k: "k < length rest" and nk: "nullish (rest ! k)"
    have "Suc k < length (n # rest)" using k by simp
    moreover have "nullish ((n # rest) ! Suc k)" using nk by simp
    ultimately have "nullish (array_get olds (i + Suc k))" using Cons.prems(3) by blast
    then show "nullish (array_get olds (Suc i + k))" by simp
  qed
  from Cons.IH[OF rest[unfolded c1(1)] live1 nr] obtain p' c' where pc: "r = Some p'"
    "childAt p' index = Some c'" "length (childNodes c1) \<le> length (childNodes c')"
    "\<forall>j < length (childNodes c1). Suc i + length rest \<le> j \<longrightarrow> childNodes c' ! j = childNodes c1 ! j"
    by blast
  have "\<forall>j < length (childNodes c). i + length (n # rest) \<le> j \<longrightarrow>
          childNodes c' ! j = childNodes c ! j"
  proof (intro allI impI)
    fix j assume j: "j < length (childNodes c)" and ge: "i + length (n # rest) \<le> j"
    have "childNodes c' ! j = childNodes c1 ! j" using pc(4) j c1(2) ge by simp
    also have "\<dots> = childNodes c ! j" using c1(3) j ge by simp
    finally show "childNodes c' ! j = childNodes c ! j" .
  qed
  moreover have "length (childNodes c) \<le> length (childNodes c')" using c1(2) pc(3) by simp
  ultimately show ?case using pc(1,2) by blast
qed

text \<open>
  C10, amended. When \<open>diff\<close> meets an unchanged pair of objects and no new child is
  \<open>null\<close> or \<open>undefined\<close> where the old child at the same position is present (so no
  step removes a live child), then in the live node at the index every child at a
  position from the new child count on stays where it is, unchanged, and the number of
  live children does not decrease: the recursion visits the positions of the new
  children only.
\<close>

theorem diff_keeps_surplus_children:
  assumes unchanged: "changed oldNode newNode = Inr False"
    and present: "\<not> nullish oldNode" "\<not> nullish newNode"
    and news: "prop_children newNode = Inr (Some news)"
    and olds: "prop_children oldNode = Inr (Some olds)"
    and live: "childAt p index = Some c"
    and norem: "\<forall>k < length news. nullish (news ! k) \<longrightarrow> nullish (array_get olds k)"
    and res: "diff P (Some p) newNode oldNode index = Inr r"
  shows "\<exists>p' c'. r = Some p' \<and> childAt p' index = Some c'
           \<and> length (childNodes c) \<le> length (childNodes c')
           \<and> (\<forall>j. length news \<le> j \<and> j < length (childNodes c) \<longrightarrow>
                 childNodes c' ! j = childNodes c ! j)"
proof -
  from news obtain ty tg at where n: "newNode = VNode ty tg at news"
    by (cases newNode) auto
  show ?thesis
  proof (cases "truthy tg")
    case True
    then have loop: "diff_children P (Some p) index oldNode news 0 = Inr r"
      using res unchanged present n by (simp add: diff.simps(1))
    have nr: "\<forall>k < length news. nullish (news ! k) \<longrightarrow> nullish (array_get olds (0 + k))"
      using norem by simp
    from diff_children_surplus[OF olds loop live nr] show ?thesis by auto
  next
    case False
    then have "r = Some p" using res unchanged present n by (simp add: diff.simps(1))
    then show ?thesis using live by auto
  qed
qed

text \<open>
  C10, as the claim states it, fails: a removal shifts the live children to the left, and
  a later step then hits a surplus child. Old children \<open>'x', 'y', 'z'\<close>, new children
  \<open>null, 'q'\<close>: step 0 removes the live \<open>x\<close>, step 1 compares \<open>'q'\<close> with the old \<open>'y'\<close>
  and replaces the live child at position 1, which by now is \<open>z\<close>. The surplus child
  \<open>z\<close> is gone although no new child at its index is \<open>null\<close>.
\<close>

theorem diff_replaces_surplus_child:
  "changed (h (JStr ''ul'') (Attrs []) [VStr ''x'', VStr ''y'', VStr ''z''])
           (h (JStr ''ul'') (Attrs []) [VNull, VStr ''q'']) = Inr False
   \<and> diff permissive
        (Some (Element ''body'' [] [] [Element ''ul'' [] [] [Text ''x'', Text ''y'', Text ''z'']]))
        (h (JStr ''ul'') (Attrs []) [VNull, VStr ''q''])
        (h (JStr ''ul'') (Attrs []) [VStr ''x'', VStr ''y'', VStr ''z'']) 0
       = Inr (Some (Element ''body'' [] [] [Element ''ul'' [] [] [Text ''y'', Text ''q'']]))"
  by (simp add: h_def vNode_def changed_defs dom_defs Let_def diff.simps)

text \<open>
  The theorem at old children \<open>'x', 'y', 'z'\<close> and the new child \<open>'q'\<close>: the live \<open>y\<close>
  and \<open>z\<close> stay at positions 1 and 2.
\<close>

theorem diff_keeps_surplus_children_witness:
  "diff permissive
        (Some (Element ''body'' [] [] [Element ''ul'' [] [] [Text ''x'', Text ''y'', Text ''z'']]))
        (h (JStr ''ul'') (Attrs []) [VStr ''q''])
        (h (JStr ''ul'') (Attrs []) [VStr ''x'', VStr ''y'', VStr ''z'']) 0
       = Inr (Some (Element ''body'' [] [] [Element ''ul'' [] [] [Text ''q'', Text ''y'', Text ''z'']]))
   \<and> (\<exists>p' c'. Some (Element ''body'' [] [] [Element ''ul'' [] [] [Text ''q'', Text ''y'', Text ''z'']]) = Some p'
         \<and> childAt p' 0 = Some c' \<and> 3 \<le> length (childNodes c')
         \<and> childNodes c' ! 1 = Text ''y'' \<and> childNodes c' ! 2 = Text ''z'')"
proof -
  let ?old = "h (JStr ''ul'') (Attrs []) [VStr ''x'', VStr ''y'', VStr ''z'']"
  let ?new = "h (JStr ''ul'') (Attrs []) [VStr ''q'']"
  let ?ul = "Element ''ul'' [] [] [Text ''x'', Text ''y'', Text ''z'']"
  let ?r = "Some (Element ''body'' [] [] [Element ''ul'' [] [] [Text ''q'', Text ''y'', Text ''z'']])"
  have unchanged: "changed ?old ?new = Inr False"
    by (simp add: h_def vNode_def changed_defs)
  have present: "\<not> nullish ?old" "\<not> nullish ?new"
    by (simp_all add: h_def vNode_def)
  have news: "prop_children ?new = Inr (Some [VStr ''q''])"
    by (simp add: h_def vNode_def)
  have olds: "prop_children ?old = Inr (Some [VStr ''x'', VStr ''y'', VStr ''z''])"
    by (simp add: h_def vNode_def)
  have live: "childAt (Element ''body'' [] [] [?ul]) 0 = Some ?ul"
    by (simp add: childAt_def)
  have norem: "\<forall>k < length [VStr ''q'']. nullish ([VStr ''q''] ! k) \<longrightarrow>
                 nullish (array_get [VStr ''x'', VStr ''y'', VStr ''z''] k)"
    by simp
  have res: "diff permissive (Some (Element ''body'' [] [] [?ul])) ?new ?old 0 = Inr ?r"
    by (simp add: h_def vNode_def changed_defs dom_defs Let_def diff.simps)
  from diff_keeps_surplus_children[OF unchanged present news olds live norem res]
  obtain p' c' where pc: "?r = Some p'" "childAt p' 0 = Some c'"
    "length (childNodes ?ul) \<le> length (childNodes c')"
    "\<forall>j. length [VStr ''q''] \<le> j \<and> j < length (childNodes ?ul) \<longrightarrow>
         childNodes c' ! j = childNodes ?ul ! j"
    by blast
  have "childNodes c' ! 1 = Text ''y''" using pc(4)[rule_format, of 1] by simp
  moreover have "childNodes c' ! 2 = Text ''z''" using pc(4)[rule_format, of 2] by simp
  moreover have "3 \<le> length (childNodes c')" using pc(3) by simp
  ultimately show ?thesis using res pc(1,2) by blast
qed

subsection \<open>The cases of \<open>diff\<close>\<close>

lemma diff_children_forEach:
  assumes "prop_children old = Inr (Some olds)"
  shows "diff_children P parent index old news i =
    forEach (\<lambda>(k, n) parent.
        case parent of None \<Rightarrow> Inl TypeError
        | Some p \<Rightarrow>
            (case diff P (childAt p index) n (array_get olds k) k of Inl e \<Rightarrow> Inl e
             | Inr c' \<Rightarrow> Inr (Some (put_child p index c'))))
      (zip [i ..< i + length news] news) parent"
proof (induction news arbitrary: parent i)
  case Nil
  then show ?case by (simp add: diff.simps)
next
  case (Cons n rest)
  have z: "zip [i ..< i + length (n # rest)] (n # rest) =
            (i, n) # zip [Suc i ..< Suc i + length rest] rest"
    by (simp add: upt_conv_Cons del: upt_Suc)
  show ?case
    unfolding z using assms Cons.IH[of _ "Suc i"]
    by (simp add: diff.simps split: option.splits sum.splits)
qed

text \<open>
  C3, amended. On an element as parent, \<open>diff\<close> performs the first case that applies:
  the old node is absent: it materializes the new node and appends it; the new node is
  absent: it removes the live child at the index (a \<open>TypeError\<close> when there is none);
  \<open>changed\<close> holds: it materializes the new node and puts it in the place of the live
  child at the index, without looking at the old subtree; otherwise, when the new node is
  an object with a truthy tag name, it runs over the new children in order and patches
  the live node at the index with the pair of the new child and the old child at the same
  position; and when the new node has no truthy tag name (a string, a number, an array,
  an object without tag), it does nothing.
\<close>

theorem diff_cases:
  "(nullish oldNode \<longrightarrow>
      diff P (Some (Element t as ls cs)) newNode oldNode index =
        (case render P newNode of Inl e \<Rightarrow> Inl e
         | Inr d \<Rightarrow> Inr (Some (Element t as ls (cs @ [d])))))
   \<and> (\<not> nullish oldNode \<and> nullish newNode \<longrightarrow>
      diff P (Some (Element t as ls cs)) newNode oldNode index =
        (if index < length cs
         then Inr (Some (Element t as ls (take index cs @ drop (Suc index) cs)))
         else Inl TypeError))
   \<and> (\<not> nullish oldNode \<and> \<not> nullish newNode \<and> changed oldNode newNode = Inr True \<longrightarrow>
      diff P (Some (Element t as ls cs)) newNode oldNode index =
        (case render P newNode of Inl e \<Rightarrow> Inl e
         | Inr d \<Rightarrow>
             if index < length cs then Inr (Some (Element t as ls (cs[index := d])))
             else Inl TypeError))
   \<and> (\<not> nullish oldNode \<and> \<not> nullish newNode \<and> changed oldNode newNode = Inr False
        \<and> newNode = VNode ty tg at news \<and> truthy tg
        \<and> prop_children oldNode = Inr (Some olds) \<longrightarrow>
      diff P (Some (Element t as ls cs)) newNode oldNode index =
        forEach (\<lambda>(k, n) parent.
            case parent of None \<Rightarrow> Inl TypeError
            | Some p \<Rightarrow>
                (case diff P (childAt p index) n (array_get olds k) k of Inl e \<Rightarrow> Inl e
                 | Inr c' \<Rightarrow> Inr (Some (put_child p index c'))))
          (zip [0 ..< length news] news) (Some (Element t as ls cs)))
   \<and> (\<not> nullish oldNode \<and> \<not> nullish newNode \<and> changed oldNode newNode = Inr False
        \<and> prop_tagName newNode = Inr tg \<and> \<not> truthy tg \<longrightarrow>
      diff P (Some (Element t as ls cs)) newNode oldNode index = Inr (Some (Element t as ls cs)))"
proof -
  have append: "nullish oldNode \<longrightarrow>
      diff P (Some (Element t as ls cs)) newNode oldNode index =
        (case render P newNode of Inl e \<Rightarrow> Inl e
         | Inr d \<Rightarrow> Inr (Some (Element t as ls (cs @ [d]))))"
    by (simp add: diff.simps(1) split: sum.splits)
  have remove: "\<not> nullish oldNode \<and> nullish newNode \<longrightarrow>
      diff P (Some (Element t as ls cs)) newNode oldNode index =
        (if index < length cs
         then Inr (Some (Element t as ls (take index cs @ drop (Suc index) cs)))
         else Inl TypeError)"
    by (simp add: diff.simps(1))
  have replace: "\<not> nullish oldNode \<and> \<not> nullish newNode \<and> changed oldNode newNode = Inr True \<longrightarrow>
      diff P (Some (Element t as ls cs)) newNode oldNode index =
        (case render P newNode of Inl e \<Rightarrow> Inl e
         | Inr d \<Rightarrow>
             if index < length cs then Inr (Some (Element t as ls (cs[index := d])))
             else Inl TypeError)"
    by (simp add: diff.simps(1) split: sum.splits)
  have recurse: "\<not> nullish oldNode \<and> \<not> nullish newNode \<and> changed oldNode newNode = Inr False
        \<and> newNode = VNode ty tg at news \<and> truthy tg
        \<and> prop_children oldNode = Inr (Some olds) \<longrightarrow>
      diff P (Some (Element t as ls cs)) newNode oldNode index =
        forEach (\<lambda>(k, n) parent.
            case parent of None \<Rightarrow> Inl TypeError
            | Some p \<Rightarrow>
                (case diff P (childAt p index) n (array_get olds k) k of Inl e \<Rightarrow> Inl e
                 | Inr c' \<Rightarrow> Inr (Some (put_child p index c'))))
          (zip [0 ..< length news] news) (Some (Element t as ls cs))"
  proof
    assume a: "\<not> nullish oldNode \<and> \<not> nullish newNode \<and> changed oldNode newNode = Inr False
        \<and> newNode = VNode ty tg at news \<and> truthy tg
        \<and> prop_children oldNode = Inr (Some olds)"
    then have n: "newNode = VNode ty tg at news" and tg: "truthy tg"
      and ch: "changed oldNode (VNode ty tg at news) = Inr False"
      and nn: "\<not> nullish oldNode"
      by auto
    have "diff P (Some (Element t as ls cs)) newNode oldNode index =
        diff_children P (Some (Element t as ls cs)) index oldNode news 0"
      unfolding n using tg ch nn by (simp add: diff.simps(1))
    also have "\<dots> = forEach (\<lambda>(k, n) parent.
            case parent of None \<Rightarrow> Inl TypeError
            | Some p \<Rightarrow>
                (case diff P (childAt p index) n (array_get olds k) k of Inl e \<Rightarrow> Inl e
                 | Inr c' \<Rightarrow> Inr (Some (put_child p index c'))))
          (zip [0 ..< 0 + length news] news) (Some (Element t as ls cs))"
      using a by (intro diff_children_forEach) simp
    finally show "diff P (Some (Element t as ls cs)) newNode oldNode index =
        forEach (\<lambda>(k, n) parent.
            case parent of None \<Rightarrow> Inl TypeError
            | Some p \<Rightarrow>
                (case diff P (childAt p index) n (array_get olds k) k of Inl e \<Rightarrow> Inl e
                 | Inr c' \<Rightarrow> Inr (Some (put_child p index c'))))
          (zip [0 ..< length news] news) (Some (Element t as ls cs))"
      by simp
  qed
  have untagged: "\<not> nullish oldNode \<and> \<not> nullish newNode \<and> changed oldNode newNode = Inr False
        \<and> prop_tagName newNode = Inr tg \<and> \<not> truthy tg \<longrightarrow>
      diff P (Some (Element t as ls cs)) newNode oldNode index = Inr (Some (Element t as ls cs))"
    by (cases newNode) (auto simp add: diff.simps(1))
  show ?thesis
    by (intro conjI append remove replace recurse untagged)
qed

text \<open>
  C3, as the claim states it, fails in its last case: the recursion into the child pairs
  is guarded by \<open>if (newNode.tagName)\<close>. For the unchanged pair \<open>h(undefined, undefined, 'a')\<close>
  and \<open>h(undefined, undefined, 'b')\<close> the differ does nothing, where the recursion into the
  child pair (\<open>diff_children\<close>) would have replaced the text \<open>a\<close> by \<open>b\<close>.
\<close>

theorem diff_skips_untagged_children:
  "\<not> nullish (h JUndefined Attrs_undefined [VStr ''a''])
   \<and> \<not> nullish (h JUndefined Attrs_undefined [VStr ''b''])
   \<and> changed (h JUndefined Attrs_undefined [VStr ''a'']) (h JUndefined Attrs_undefined [VStr ''b''])
       = Inr False
   \<and> render permissive (h JUndefined Attrs_undefined [VStr ''a''])
       = Inr (Element ''undefined'' [] [] [Text ''a''])
   \<and> diff permissive (Some (Element ''body'' [] [] [Element ''undefined'' [] [] [Text ''a'']]))
        (h JUndefined Attrs_undefined [VStr ''b'']) (h JUndefined Attrs_undefined [VStr ''a'']) 0
       = Inr (Some (Element ''body'' [] [] [Element ''undefined'' [] [] [Text ''a'']]))
   \<and> diff_children permissive (Some (Element ''body'' [] [] [Element ''undefined'' [] [] [Text ''a'']]))
        0 (h JUndefined Attrs_undefined [VStr ''a'']) [VStr ''b''] 0
       = Inr (Some (Element ''body'' [] [] [Element ''undefined'' [] [] [Text ''b'']]))"
  by (simp add: h_def vNode_def changed_defs dom_defs Let_def diff.simps)

text \<open>
  The five cases of the theorem, each at a concrete input.
\<close>

theorem diff_cases_witness:
  "diff permissive (Some (Element ''body'' [] [] [Text ''a''])) (VStr ''b'') VUndefined 0
     = Inr (Some (Element ''body'' [] [] [Text ''a'', Text ''b'']))
   \<and> diff permissive (Some (Element ''body'' [] [] [Text ''a'', Text ''b''])) VNull (VStr ''a'') 0
     = Inr (Some (Element ''body'' [] [] [Text ''b'']))
   \<and> diff permissive (Some (Element ''body'' [] [] [Text ''a''])) (VStr ''b'') (VStr ''a'') 0
     = Inr (Some (Element ''body'' [] [] [Text ''b'']))
   \<and> diff permissive (Some (Element ''body'' [] [] [Element ''p'' [] [] [Text ''a'']]))
        (h (JStr ''p'') (Attrs []) [VStr ''b'']) (h (JStr ''p'') (Attrs []) [VStr ''a'']) 0
     = Inr (Some (Element ''body'' [] [] [Element ''p'' [] [] [Text ''b'']]))
   \<and> diff permissive (Some (Element ''body'' [] [] [Text ''a''])) (VStr ''a'') (VStr ''a'') 0
     = Inr (Some (Element ''body'' [] [] [Text ''a'']))"
proof -
  have append: "diff permissive (Some (Element ''body'' [] [] [Text ''a''])) (VStr ''b'') VUndefined 0
     = Inr (Some (Element ''body'' [] [] [Text ''a'', Text ''b'']))"
    using diff_cases[where oldNode = VUndefined and newNode = "VStr ''b''" and P = permissive
        and t = "''body''" and as = "[]" and ls = "[]" and cs = "[Text ''a'']" and index = 0]
    by (simp add: createTextNode_def)
  have remove: "diff permissive (Some (Element ''body'' [] [] [Text ''a'', Text ''b''])) VNull (VStr ''a'') 0
     = Inr (Some (Element ''body'' [] [] [Text ''b'']))"
    using diff_cases[where oldNode = "VStr ''a''" and newNode = VNull and P = permissive
        and t = "''body''" and as = "[]" and ls = "[]" and cs = "[Text ''a'', Text ''b'']" and index = 0]
    by simp
  have replace: "diff permissive (Some (Element ''body'' [] [] [Text ''a''])) (VStr ''b'') (VStr ''a'') 0
     = Inr (Some (Element ''body'' [] [] [Text ''b'']))"
    using diff_cases[where oldNode = "VStr ''a''" and newNode = "VStr ''b''" and P = permissive
        and t = "''body''" and as = "[]" and ls = "[]" and cs = "[Text ''a'']" and index = 0]
    by (simp add: changed_defs createTextNode_def)
  have recurse: "diff permissive (Some (Element ''body'' [] [] [Element ''p'' [] [] [Text ''a'']]))
        (h (JStr ''p'') (Attrs []) [VStr ''b'']) (h (JStr ''p'') (Attrs []) [VStr ''a'']) 0
     = Inr (Some (Element ''body'' [] [] [Element ''p'' [] [] [Text ''b'']]))"
    using diff_cases[where oldNode = "h (JStr ''p'') (Attrs []) [VStr ''a'']"
        and newNode = "h (JStr ''p'') (Attrs []) [VStr ''b'']" and P = permissive
        and t = "''body''" and as = "[]" and ls = "[]" and cs = "[Element ''p'' [] [] [Text ''a'']]"
        and index = 0 and ty = JUndefined and tg = "JStr ''p''" and at = "Some []"
        and news = "[VStr ''b'']" and olds = "[VStr ''a'']"]
    by (simp add: h_def vNode_def changed_defs dom_defs diff.simps)
  have untagged: "diff permissive (Some (Element ''body'' [] [] [Text ''a''])) (VStr ''a'') (VStr ''a'') 0
     = Inr (Some (Element ''body'' [] [] [Text ''a'']))"
    using diff_cases[where oldNode = "VStr ''a''" and newNode = "VStr ''a''" and P = permissive
        and t = "''body''" and as = "[]" and ls = "[]" and cs = "[Text ''a'']" and index = 0
        and tg = JUndefined]
    by (simp add: changed_defs)
  show ?thesis
    by (intro conjI append remove replace recurse untagged)
qed

end
